theory Spec2Isabelle
  imports Main
begin

section \<open>The release script \<open>dev/release.py\<close>\<close>

text \<open>
  The script is a linear sequence of external commands (git, sbt, the docs build script),
  confirmation prompts and early exits. The embedding makes each effect explicit:
  \<^item> a Python \<open>bytes\<close> value is a \<^typ>\<open>string\<close>, and a Python \<open>str\<close> is the
    \<^typ>\<open>string\<close> of its UTF-8 encoding, so that equal texts are equal strings;
  \<^item> the parsed command line is the record \<open>args\<close>;
  \<^item> everything the script reads from outside (the clock, the user's answers, the
    standard output and the exit status of the commands it starts) is the record \<open>world\<close>;
  \<^item> a run returns the list of events it performed, in order, and how the process ended.
  Text written by \<open>prominentPrint\<close> has no influence on control flow and is not recorded.
\<close>

subsection \<open>String operations of the Python library\<close>

text \<open>\<open>s.endswith(suffix)\<close>.\<close>

definition endswith :: "string \<Rightarrow> string \<Rightarrow> bool" where
  "endswith s suf \<longleftrightarrow> length suf \<le> length s \<and> drop (length s - length suf) s = suf"

text \<open>\<open>bytes.strip()\<close>: removes leading and trailing ASCII whitespace.\<close>

definition bytes_space :: "char \<Rightarrow> bool" where
  "bytes_space c \<longleftrightarrow> c \<in> set [CHR 0x20, CHR 0x09, CHR 0x0A, CHR 0x0D, CHR 0x0B, CHR 0x0C]"

definition strip :: "string \<Rightarrow> string" where
  "strip s = rev (dropWhile bytes_space (rev (dropWhile bytes_space s)))"

text \<open>
  \<open>bytes.decode()\<close>: the bytes must be well-formed UTF-8, or \<open>UnicodeDecodeError\<close> is
  raised. The decoded text is kept as the list of its characters, each one the one to
  four bytes that encode it. \<open>lead\<close> reads the first byte of a character: how many bytes
  follow, and the range the next one must lie in (this excludes overlong forms, the
  surrogates and everything above \<open>U+10FFFF\<close>, as Python's strict decoder does).
\<close>

definition byte :: "char \<Rightarrow> int" where
  "byte c = of_char c"

definition lead :: "char \<Rightarrow> (nat \<times> int \<times> int) option" where
  "lead c =
     (let b = byte c
      in if b \<le> 0x7F then Some (0, 0x80, 0xBF)
         else if 0xC2 \<le> b \<and> b \<le> 0xDF then Some (1, 0x80, 0xBF)
         else if b = 0xE0 then Some (2, 0xA0, 0xBF)
         else if b = 0xED then Some (2, 0x80, 0x9F)
         else if 0xE1 \<le> b \<and> b \<le> 0xEF then Some (2, 0x80, 0xBF)
         else if b = 0xF0 then Some (3, 0x90, 0xBF)
         else if 0xF1 \<le> b \<and> b \<le> 0xF3 then Some (3, 0x80, 0xBF)
         else if b = 0xF4 then Some (3, 0x80, 0x8F)
         else None)"

text \<open>
  \<open>decode_from ch need lo hi bs\<close>: \<open>ch\<close> holds the bytes read of the current character,
  \<open>need\<close> more bytes belong to it, and the next of them lies between \<open>lo\<close> and \<open>hi\<close>.
\<close>

fun decode_from :: "string \<Rightarrow> nat \<Rightarrow> int \<Rightarrow> int \<Rightarrow> string \<Rightarrow> string list option" where
  "decode_from ch need lo hi [] = (if need = 0 then Some [] else None)"
| "decode_from ch need lo hi (c # cs) =
     (if need = 0 then
        (case lead c of
           None \<Rightarrow> None
         | Some (n, lo', hi') \<Rightarrow>
             if n = 0 then map_option ((#) [c]) (decode_from [] 0 0x80 0xBF cs)
             else decode_from [c] n lo' hi' cs)
      else if lo \<le> byte c \<and> byte c \<le> hi then
        (if need = 1 then map_option ((#) (ch @ [c])) (decode_from [] 0 0x80 0xBF cs)
         else decode_from (ch @ [c]) (need - 1) 0x80 0xBF cs)
      else None)"

definition decode :: "string \<Rightarrow> string list option" where
  "decode bs = decode_from [] 0 0x80 0xBF bs"

text \<open>The code point of a character, from the bytes that encode it.\<close>

definition code_point :: "string \<Rightarrow> int" where
  "code_point ch =
     (case map byte ch of
        [a] \<Rightarrow> a
      | [a, b] \<Rightarrow> (a - 0xC0) * 64 + (b - 0x80)
      | [a, b, c] \<Rightarrow> (a - 0xE0) * 4096 + (b - 0x80) * 64 + (c - 0x80)
      | [a, b, c, d] \<Rightarrow>
          (a - 0xF0) * 262144 + (b - 0x80) * 4096 + (c - 0x80) * 64 + (d - 0x80)
      | _ \<Rightarrow> 0)"

text \<open>
  The code points at which \<open>str.split()\<close> cuts (those with \<open>str.isspace()\<close>): the ASCII
  white space, the separators \<open>0x1C\<close> to \<open>0x1F\<close>, and the white space beyond ASCII.
\<close>

definition isspace :: "int \<Rightarrow> bool" where
  "isspace n \<longleftrightarrow>
     (0x09 \<le> n \<and> n \<le> 0x0D) \<or> (0x1C \<le> n \<and> n \<le> 0x20) \<or> n = 0x85 \<or> n = 0xA0 \<or>
     n = 0x1680 \<or> (0x2000 \<le> n \<and> n \<le> 0x200A) \<or> n = 0x2028 \<or> n = 0x2029 \<or>
     n = 0x202F \<or> n = 0x205F \<or> n = 0x3000"

text \<open>
  \<open>str.split()\<close> without arguments, on a decoded text: the maximal runs of characters
  that are not white space, each run again a \<open>str\<close> (the bytes of its characters).
\<close>

fun split_from :: "string \<Rightarrow> string list \<Rightarrow> string list" where
  "split_from word [] = (if word = [] then [] else [word])"
| "split_from word (ch # chs) =
     (if isspace (code_point ch)
      then (if word = [] then split_from [] chs else word # split_from [] chs)
      else split_from (word @ ch) chs)"

definition split :: "string list \<Rightarrow> string list" where
  "split text = split_from [] text"

subsection \<open>Module constants\<close>

definition DATABRICKS_REMOTE :: string where
  "DATABRICKS_REMOTE = ''git@github.com:graphframes/graphframes.git''"

definition PUBLISH_MODES :: "(string \<times> string) list" where
  "PUBLISH_MODES =
     [(''local'', ''publishLocal''),
      (''m2'', ''publishM2''),
      (''spark-package-publish'', ''spDist'')]"

definition PUBLISH_DOCS_DEFAULT :: bool where
  "PUBLISH_DOCS_DEFAULT = True"

text \<open>The three \<open>%\<close>-templates, as functions of the values substituted for \<open>%s\<close>.\<close>

definition WORKING_BRANCH :: "string \<Rightarrow> string \<Rightarrow> string" where
  "WORKING_BRANCH rel t = ''WORKING_BRANCH_RELEASE_'' @ rel @ ''_@'' @ t"

definition WORKING_DOCS_BRANCH :: "string \<Rightarrow> string \<Rightarrow> string" where
  "WORKING_DOCS_BRANCH rel t = ''zWORKING_BRANCH_DOCS_'' @ rel @ ''_@'' @ t"

definition RELEASE_TAG :: "string \<Rightarrow> string" where
  "RELEASE_TAG rel = ''v'' @ rel"

subsection \<open>Inputs, events and outcomes\<close>

text \<open>The parameters of \<open>main\<close>, as click passes them after parsing the command line.\<close>

record args =
  release_version :: string
  next_version :: string
  publish_to :: string
  no_prompt :: bool
  git_remote :: string
  publish_docs :: bool
  spark_version :: "string list"

datatype event =
    Confirm string          \<comment> \<open>\<open>click.confirm\<close> shown with this prompt\<close>
  | Exec "string list"      \<comment> \<open>a process started with this argument vector\<close>

text \<open>
  The world of one run.
  \<^item> \<open>time_now\<close> is the value of \<open>datetime.now().strftime("%Y-%m-%dT%H-%M-%S")\<close>, the
    start timestamp of the run at the resolution of one second.
  \<^item> \<open>confirm p\<close> is what \<open>click.confirm\<close> returns for the prompt \<open>p\<close>. The prompts of
    the script are pairwise different and each is shown at most once in a run.
  \<^item> \<open>stdout_of argv\<close> is the output of the process \<open>check_output\<close> starts, \<open>None\<close> when
    the process exits with a non-zero status. The script queries three different
    argument vectors, each at most once.
  \<^item> \<open>call_ok tr argv\<close> tells whether the process \<open>check_call\<close> starts after the events
    \<open>tr\<close> exits with status zero.
\<close>

record world =
  time_now :: string
  confirm :: "string \<Rightarrow> bool"
  stdout_of :: "string list \<Rightarrow> string option"
  call_ok :: "event list \<Rightarrow> string list \<Rightarrow> bool"

datatype outcome =
    Exit int                \<comment> \<open>\<open>sys.exit(n)\<close>\<close>
  | Returned                \<comment> \<open>\<open>main\<close> ran to its last line\<close>
  | CalledProcessError      \<comment> \<open>uncaught, raised by \<open>check_call\<close> or \<open>check_output\<close>\<close>
  | KeyError                \<comment> \<open>uncaught, raised by a dictionary lookup\<close>
  | UnicodeDecodeError      \<comment> \<open>uncaught, raised by \<open>decode\<close>\<close>

text \<open>
  The exit status of the process: the argument of \<open>sys.exit\<close>, 0 when the command
  returns, 1 when the interpreter ends on an uncaught exception.
\<close>

fun exit_status :: "outcome \<Rightarrow> int" where
  "exit_status (Exit n) = n"
| "exit_status Returned = 0"
| "exit_status CalledProcessError = 1"
| "exit_status KeyError = 1"
| "exit_status UnicodeDecodeError = 1"

type_synonym result = "event list \<times> outcome"

subsection \<open>Helpers of the script\<close>

text \<open>\<open>verify\<close>: without interaction the answer is \<open>True\<close> and nothing is shown.\<close>

definition verify :: "world \<Rightarrow> string \<Rightarrow> bool \<Rightarrow> event list \<Rightarrow> bool \<times> event list" where
  "verify w prompt interactive tr =
     (if \<not> interactive then (True, tr)
      else (confirm w prompt, tr @ [Confirm prompt]))"

text \<open>
  \<open>check_call\<close> and \<open>check_output\<close> start a process and raise when its status is not
  zero; \<open>k\<close> is the rest of the script.
\<close>

definition check_call ::
  "world \<Rightarrow> string list \<Rightarrow> event list \<Rightarrow> (event list \<Rightarrow> result) \<Rightarrow> result" where
  "check_call w argv tr k =
     (if call_ok w tr argv then k (tr @ [Exec argv])
      else (tr @ [Exec argv], CalledProcessError))"

definition check_output ::
  "world \<Rightarrow> string list \<Rightarrow> event list \<Rightarrow> (string \<Rightarrow> event list \<Rightarrow> result) \<Rightarrow> result" where
  "check_output w argv tr k =
     (case stdout_of w argv of
        None \<Rightarrow> (tr @ [Exec argv], CalledProcessError)
      | Some out \<Rightarrow> k out (tr @ [Exec argv]))"

text \<open>Line 53 and 54: the next version carries the snapshot suffix.\<close>

definition normalize_next_version :: "string \<Rightarrow> string" where
  "normalize_next_version nv =
     (if \<not> endswith nv ''SNAPSHOT'' then nv @ ''-SNAPSHOT'' else nv)"

subsection \<open>The prompts and the queries\<close>

definition release_prompt :: "string \<Rightarrow> string \<Rightarrow> string" where
  "release_prompt rel nv =
     ''Publishing version: '' @ rel @ [CHR 0x0A] @
     ''Next version will be: '' @ nv @ [CHR 0x0A] @ ''Continue?''"

definition not_master_prompt :: string where
  "not_master_prompt = ''You're not on the master branch do you want to continue?''"

definition push_prompt :: "string \<Rightarrow> string" where
  "push_prompt remote =
     ''Would you like to push local branch & version tag to remote: '' @ remote @ ''?''"

definition docs_prompt :: string where
  "docs_prompt = ''Would you like to build release docs?''"

definition docs_push_prompt :: "string \<Rightarrow> string" where
  "docs_push_prompt remote =
     ''Would you like to push docs branch to '' @ remote @ '' and update gh-pages branch?''"

definition rev_parse_cmd :: "string list" where
  "rev_parse_cmd = [''git'', ''rev-parse'', ''--abbrev-ref'', ''HEAD'']"

definition diff_cmd :: "string list" where
  "diff_cmd = [''git'', ''diff'', ''--stat'']"

definition tag_cmd :: "string list" where
  "tag_cmd = [''git'', ''tag'']"

subsection \<open>The body of \<open>main\<close>, last lines first\<close>

text \<open>Lines 136 and 137: back to the original branch, the local docs branch is deleted.\<close>

definition leave_docs_branch :: "world \<Rightarrow> string \<Rightarrow> string \<Rightarrow> event list \<Rightarrow> result" where
  "leave_docs_branch w current_branch gh_pages_branch tr =
     check_call w [''git'', ''checkout'', current_branch] tr (\<lambda>tr.
     check_call w [''git'', ''branch'', ''-D'', gh_pages_branch] tr (\<lambda>tr.
     (tr, Returned)))"

text \<open>Lines 124 to 134: the docs are built, committed and, after confirmation, pushed.\<close>

definition build_docs ::
  "world \<Rightarrow> args \<Rightarrow> string \<Rightarrow> string \<Rightarrow> string \<Rightarrow> event list \<Rightarrow> result" where
  "build_docs w a current_branch gh_pages_branch release_tag tr =
     check_call w [''git'', ''checkout'', ''-b'', gh_pages_branch, release_tag] tr (\<lambda>tr.
     check_call w [''./dev/build-docs.sh''] tr (\<lambda>tr.
     check_call w [''git'', ''add'', ''-f'', ''docs/_site''] tr (\<lambda>tr.
     check_call w [''git'', ''commit'', ''-m'',
                   ''Build docs for release '' @ release_version a @ ''.''] tr (\<lambda>tr.
     (case verify w (docs_push_prompt (git_remote a)) (\<not> no_prompt a) tr of
        (ok, tr) \<Rightarrow>
          if ok then
            check_call w [''git'', ''push'', git_remote a, gh_pages_branch] tr (\<lambda>tr.
            check_call w [''git'', ''push'', ''-f'', git_remote a,
                          gh_pages_branch @ '':gh-pages''] tr (\<lambda>tr.
            leave_docs_branch w current_branch gh_pages_branch tr))
          else leave_docs_branch w current_branch gh_pages_branch tr)))))"

text \<open>
  Lines 118 to 122: \<open>publish_docs and verify(...)\<close> asks only when \<open>publish_docs\<close> is set;
  without docs the script is done and exits with status 0.
\<close>

definition docs_gate ::
  "world \<Rightarrow> args \<Rightarrow> string \<Rightarrow> string \<Rightarrow> string \<Rightarrow> event list \<Rightarrow> result" where
  "docs_gate w a current_branch gh_pages_branch release_tag tr =
     (case (if publish_docs a then verify w docs_prompt (\<not> no_prompt a) tr else (False, tr)) of
        (ok, tr) \<Rightarrow>
          if \<not> ok then (tr, Exit 0)
          else build_docs w a current_branch gh_pages_branch release_tag tr)"

text \<open>Lines 112 to 116: the push of the branch and of the tag, behind \<open>verify\<close>.\<close>

definition push_release ::
  "world \<Rightarrow> args \<Rightarrow> string \<Rightarrow> string \<Rightarrow> string \<Rightarrow> event list \<Rightarrow> result" where
  "push_release w a current_branch gh_pages_branch release_tag tr =
     (case verify w (push_prompt (git_remote a)) (\<not> no_prompt a) tr of
        (ok, tr) \<Rightarrow>
          if ok then
            check_call w [''git'', ''push'', git_remote a, current_branch] tr (\<lambda>tr.
            check_call w [''git'', ''push'', git_remote a, release_tag] tr (\<lambda>tr.
            docs_gate w a current_branch gh_pages_branch release_tag tr))
          else docs_gate w a current_branch gh_pages_branch release_tag tr)"

text \<open>Lines 104 and 105: one clean build and publish for each Spark version, in order.\<close>

fun publish_each ::
  "world \<Rightarrow> string \<Rightarrow> string list \<Rightarrow> event list \<Rightarrow> (event list \<Rightarrow> result) \<Rightarrow> result" where
  "publish_each w publish_target [] tr k = k tr"
| "publish_each w publish_target (version # versions) tr k =
     check_call w [''./build/sbt'', ''-Dspark.version='' @ version, ''clean'',
                   publish_target] tr (\<lambda>tr.
     publish_each w publish_target versions tr k)"

text \<open>
  Lines 93 to 110: the working branch, the version update by sbt (which creates the
  tag), the builds at the tag, and the fast-forward merge into the original branch.
\<close>

definition make_release ::
  "world \<Rightarrow> args \<Rightarrow> string \<Rightarrow> string \<Rightarrow> string \<Rightarrow> string \<Rightarrow> string \<Rightarrow>
   event list \<Rightarrow> result" where
  "make_release w a nv current_branch working_branch gh_pages_branch release_tag tr =
     check_call w [''git'', ''checkout'', ''-b'', working_branch] tr (\<lambda>tr.
     check_call w [''./build/sbt'',
                   ''release release-version '' @ release_version a @
                   '' next-version '' @ nv] tr (\<lambda>tr.
     check_call w [''git'', ''checkout'', release_tag] tr (\<lambda>tr.
     (case map_of PUBLISH_MODES (publish_to a) of
        None \<Rightarrow> (tr, KeyError)
      | Some publish_target \<Rightarrow>
          publish_each w publish_target (spark_version a) tr (\<lambda>tr.
          check_call w [''git'', ''checkout'', current_branch] tr (\<lambda>tr.
          check_call w [''git'', ''merge'', ''--ff'', working_branch] tr (\<lambda>tr.
          check_call w [''git'', ''branch'', ''-d'', working_branch] tr (\<lambda>tr.
          push_release w a current_branch gh_pages_branch release_tag tr))))))))"

text \<open>Lines 77 to 91: the names of this run, and the check for an existing tag.\<close>

definition check_tags :: "world \<Rightarrow> args \<Rightarrow> string \<Rightarrow> string \<Rightarrow> event list \<Rightarrow> result" where
  "check_tags w a nv current_branch tr =
     (let working_branch = WORKING_BRANCH (release_version a) (time_now w);
          gh_pages_branch = WORKING_DOCS_BRANCH (release_version a) (time_now w);
          release_tag = RELEASE_TAG (release_version a);
          target_tags = [release_tag]
      in check_output w tag_cmd tr (\<lambda>out tr.
           (case decode out of
              None \<Rightarrow> (tr, UnicodeDecodeError)
            | Some text \<Rightarrow>
                (let existing_tags = split text;
                     conflict_tags = filter (\<lambda>t. t \<in> set existing_tags) target_tags
                 in if conflict_tags \<noteq> [] then (tr, Exit 1)
                    else make_release w a nv current_branch working_branch gh_pages_branch
                           release_tag tr))))"

text \<open>Lines 70 to 75: uncommitted changes end the run.\<close>

definition check_clean :: "world \<Rightarrow> args \<Rightarrow> string \<Rightarrow> string \<Rightarrow> event list \<Rightarrow> result" where
  "check_clean w a nv current_branch tr =
     check_output w diff_cmd tr (\<lambda>uncommitted_changes tr.
       if uncommitted_changes \<noteq> [] then (tr, Exit 1)
       else check_tags w a nv current_branch tr)"

text \<open>Lines 61 to 68: the current branch must have a name; off master the user is asked.\<close>

definition check_branch :: "world \<Rightarrow> args \<Rightarrow> string \<Rightarrow> event list \<Rightarrow> result" where
  "check_branch w a nv tr =
     check_output w rev_parse_cmd tr (\<lambda>out tr.
       (let current_branch = strip out
        in if current_branch = ''HEAD'' then (tr, Exit 1)
           else if current_branch \<noteq> ''master'' then
             (case verify w not_master_prompt (\<not> no_prompt a) tr of
                (ok, tr) \<Rightarrow>
                  if \<not> ok then (tr, Exit 1)
                  else check_clean w a nv current_branch tr)
           else check_clean w a nv current_branch tr))"

text \<open>Lines 45 to 59, and from there the rest of the run.\<close>

definition main :: "world \<Rightarrow> args \<Rightarrow> result" where
  "main w a =
     (if publish_to a \<notin> set (map fst PUBLISH_MODES) then ([], Exit 1)
      else
        (let nv = normalize_next_version (next_version a)
         in case verify w (release_prompt (release_version a) nv) (\<not> no_prompt a) [] of
              (ok, tr) \<Rightarrow>
                if \<not> ok then (tr, Exit 1)
                else check_branch w a nv tr))"

text \<open>What a run did, read from its events.\<close>

fun commands :: "event list \<Rightarrow> string list list" where
  "commands [] = []"
| "commands (Exec argv # tr) = argv # commands tr"
| "commands (Confirm p # tr) = commands tr"

definition creates_branch :: "string list \<Rightarrow> bool" where
  "creates_branch argv \<longleftrightarrow> take 3 argv = [''git'', ''checkout'', ''-b'']"

definition is_push :: "string list \<Rightarrow> bool" where
  "is_push argv \<longleftrightarrow> take 2 argv = [''git'', ''push'']"

subsection \<open>Conditions on a run\<close>

text \<open>
  The conditions under which the script gives up before it changes anything, read off
  the world and the arguments. They are used to state the theorems only.
\<close>

definition queries :: "string list set" where
  "queries = {rev_parse_cmd, diff_cmd, tag_cmd}"

definition unknown_target :: "args \<Rightarrow> bool" where
  "unknown_target a \<longleftrightarrow> publish_to a \<notin> set (map fst PUBLISH_MODES)"

definition declined :: "world \<Rightarrow> args \<Rightarrow> string \<Rightarrow> bool" where
  "declined w a prompt \<longleftrightarrow> \<not> no_prompt a \<and> \<not> confirm w prompt"

definition current_branch_of :: "world \<Rightarrow> string option" where
  "current_branch_of w = map_option strip (stdout_of w rev_parse_cmd)"

definition detached_head :: "world \<Rightarrow> bool" where
  "detached_head w \<longleftrightarrow> current_branch_of w = Some ''HEAD''"

definition off_master :: "world \<Rightarrow> bool" where
  "off_master w \<longleftrightarrow>
     (case current_branch_of w of None \<Rightarrow> False | Some b \<Rightarrow> b \<noteq> ''master'')"

definition uncommitted :: "world \<Rightarrow> bool" where
  "uncommitted w \<longleftrightarrow> (case stdout_of w diff_cmd of None \<Rightarrow> False | Some d \<Rightarrow> d \<noteq> [])"

text \<open>The tags of the repository, as the script reads them at line 83.\<close>

definition existing_tags_of :: "world \<Rightarrow> string list option" where
  "existing_tags_of w =
     (case stdout_of w tag_cmd of
        None \<Rightarrow> None
      | Some out \<Rightarrow> map_option split (decode out))"

definition tag_exists :: "world \<Rightarrow> args \<Rightarrow> bool" where
  "tag_exists w a \<longleftrightarrow>
     (case existing_tags_of w of
        None \<Rightarrow> False
      | Some existing_tags \<Rightarrow> RELEASE_TAG (release_version a) \<in> set existing_tags)"

text \<open>A query raises: its process fails, or the list of tags is not UTF-8.\<close>

definition query_fails :: "world \<Rightarrow> bool" where
  "query_fails w \<longleftrightarrow>
     stdout_of w rev_parse_cmd = None \<or> stdout_of w diff_cmd = None \<or>
     existing_tags_of w = None"

definition checks_fail :: "world \<Rightarrow> args \<Rightarrow> bool" where
  "checks_fail w a \<longleftrightarrow>
     unknown_target a \<or>
     declined w a (release_prompt (release_version a)
                     (normalize_next_version (next_version a))) \<or>
     detached_head w \<or> (off_master w \<and> declined w a not_master_prompt) \<or>
     uncommitted w \<or> tag_exists w a \<or> query_fails w"

text \<open>The events of a run whose checks all pass, up to the creation of the working branch.\<close>

definition checks_trace :: "world \<Rightarrow> args \<Rightarrow> event list" where
  "checks_trace w a =
     (if no_prompt a then []
      else [Confirm (release_prompt (release_version a)
                       (normalize_next_version (next_version a)))]) @
     [Exec rev_parse_cmd] @
     (if \<not> no_prompt a \<and> off_master w then [Confirm not_master_prompt] else []) @
     [Exec diff_cmd, Exec tag_cmd]"

text \<open>The events of a run up to the query of the current branch.\<close>

definition confirmed_release :: "args \<Rightarrow> event list" where
  "confirmed_release a =
     (if no_prompt a then []
      else [Confirm (release_prompt (release_version a)
                       (normalize_next_version (next_version a)))])"

text \<open>
  The normalization as the specification words it, with one marker that is both looked
  for and appended.
\<close>

definition spec_normalize :: "string \<Rightarrow> string \<Rightarrow> string" where
  "spec_normalize marker nv = (if endswith nv marker then nv else nv @ marker)"

subsection \<open>Example runs\<close>

text \<open>
  A repository on \<open>branch\<close> whose \<open>git diff --stat\<close> prints \<open>changes\<close> and whose
  \<open>git tag\<close> prints \<open>tags\<close>; every command succeeds and the user answers by \<open>answer\<close>.
\<close>

definition example_world :: "string \<Rightarrow> string \<Rightarrow> string \<Rightarrow> (string \<Rightarrow> bool) \<Rightarrow> world" where
  "example_world branch changes tags answer =
     \<lparr>time_now = ''2023-04-01T12-00-00'',
      confirm = answer,
      stdout_of = (\<lambda>argv. if argv = rev_parse_cmd then Some (branch @ [CHR 0x0A])
                           else if argv = diff_cmd then Some changes
                           else if argv = tag_cmd then Some tags
                           else None),
      call_ok = (\<lambda>tr argv. True)\<rparr>"

definition clean_world :: "string \<Rightarrow> world" where
  "clean_world branch = example_world branch [] [] (\<lambda>p. True)"

definition example_args :: "bool \<Rightarrow> args" where
  "example_args quiet =
     \<lparr>release_version = ''1.2.3'', next_version = ''1.3.0'', publish_to = ''local'',
      no_prompt = quiet, git_remote = DATABRICKS_REMOTE,
      publish_docs = PUBLISH_DOCS_DEFAULT,
      spark_version = [''3.0.3'', ''3.1.3'', ''3.2.3'', ''3.3.2'']\<rparr>"

section \<open>Properties\<close>

subsection \<open>The model's inputs are well distinguished\<close>

text \<open>
  The answers of the user are indexed by the prompt and the outputs of the queries by
  the argument vector. Nothing is lost: the five prompts differ from each other for all
  values of their parameters, and so do the three queries.
\<close>

lemma prompts_distinct:
  "distinct [release_prompt rel nv, not_master_prompt, push_prompt r,
             docs_prompt, docs_push_prompt r']"
  by (simp add: release_prompt_def not_master_prompt_def push_prompt_def docs_prompt_def
      docs_push_prompt_def)

lemma queries_distinct: "distinct [rev_parse_cmd, diff_cmd, tag_cmd]"
  by (simp add: rev_parse_cmd_def diff_cmd_def tag_cmd_def)

subsection \<open>String helpers\<close>

lemma endswith_iff: "endswith s suf \<longleftrightarrow> (\<exists>p. s = p @ suf)"
proof
  assume "endswith s suf"
  then have "s = take (length s - length suf) s @ suf"
    by (metis append_take_drop_id endswith_def)
  then show "\<exists>p. s = p @ suf" ..
next
  assume "\<exists>p. s = p @ suf"
  then show "endswith s suf"
    by (auto simp: endswith_def)
qed

lemma endswith_appended: "endswith (s @ ''-SNAPSHOT'') ''SNAPSHOT''"
proof -
  have "s @ ''-SNAPSHOT'' = (s @ ''-'') @ ''SNAPSHOT''" by simp
  then show ?thesis unfolding endswith_iff by blast
qed

lemma commands_append: "commands (tr @ tr') = commands tr @ commands tr'"
  by (induction tr rule: commands.induct) simp_all

text \<open>
  The list of tags is cut at white space beyond ASCII as well (here \<open>U+00A0\<close> and
  \<open>U+2028\<close>), a character of several bytes stays inside its word, and bytes that are
  not UTF-8 are refused.
\<close>

lemma split_beyond_ascii:
  "map_option split (decode (''v1.2.3'' @ [CHR 0xC2, CHR 0xA0] @ ''rc'' @
      [CHR 0xE2, CHR 0x80, CHR 0xA8] @ ''v2-'' @ [CHR 0xC3, CHR 0xA9] @ [CHR 0x0A]))
   = Some [''v1.2.3'', ''rc'', ''v2-'' @ [CHR 0xC3, CHR 0xA9]]"
  by code_simp

lemma decode_refuses:
  "decode [CHR 0xFF] = None \<and> decode [CHR 0xC0, CHR 0x80] = None \<and>
   decode [CHR 0xED, CHR 0xA0, CHR 0x80] = None \<and>
   decode [CHR 0xF4, CHR 0x90, CHR 0x80, CHR 0x80] = None \<and> decode [CHR 0xC2] = None"
  by code_simp

subsection \<open>The checks before the release\<close>

lemmas check_defs =
  unknown_target_def declined_def current_branch_of_def detached_head_def off_master_def
  uncommitted_def existing_tags_of_def tag_exists_def query_fails_def checks_fail_def

text \<open>
  A run with a failing check ends with status 1 and has started nothing but the three
  read-only queries.
\<close>

lemma main_checks_fail:
  assumes "checks_fail w a"
  shows "exit_status (snd (main w a)) = 1 \<and> set (commands (fst (main w a))) \<subseteq> queries"
  using assms
  by (auto simp: check_defs main_def check_branch_def check_clean_def check_tags_def
      check_output_def verify_def Let_def queries_def commands_append
      split: option.splits if_splits)

text \<open>A run whose checks pass goes on with the release, with the names of this run.\<close>

lemma main_checks_pass:
  assumes "\<not> checks_fail w a" and "stdout_of w rev_parse_cmd = Some out"
  shows "main w a =
           make_release w a (normalize_next_version (next_version a)) (strip out)
             (WORKING_BRANCH (release_version a) (time_now w))
             (WORKING_DOCS_BRANCH (release_version a) (time_now w))
             (RELEASE_TAG (release_version a)) (checks_trace w a)"
  using assms
  by (auto simp: check_defs main_def check_branch_def check_clean_def check_tags_def
      check_output_def verify_def Let_def checks_trace_def
      split: option.splits if_splits)

lemma queries_create_nothing:
  assumes "set cmds \<subseteq> queries"
  shows "filter creates_branch cmds = []"
  using assms
  by (auto simp: filter_empty_conv queries_def creates_branch_def rev_parse_cmd_def
      diff_cmd_def tag_cmd_def)

subsection \<open>Commands and the rest of the script\<close>

text \<open>
  A step that ends with status 0 has handed over to its continuation, and the events of
  a run are never taken back.
\<close>

lemma set_commands: "set (commands tr) = {argv. Exec argv \<in> set tr}"
  by (induction tr rule: commands.induct) auto

lemma check_call_done:
  assumes "exit_status (snd (check_call w argv tr k)) = 0"
  shows "check_call w argv tr k = k (tr @ [Exec argv])"
  using assms by (simp add: check_call_def split: if_splits)

lemma check_call_grows:
  assumes "\<And>tr'. set tr' \<subseteq> set (fst (k tr'))"
  shows "set tr \<subseteq> set (fst (check_call w argv tr k))"
proof (cases "call_ok w tr argv")
  case True
  with assms [of "tr @ [Exec argv]"] show ?thesis by (auto simp: check_call_def)
next
  case False
  then show ?thesis by (auto simp: check_call_def)
qed

lemma check_output_grows:
  assumes "\<And>out tr'. set tr' \<subseteq> set (fst (k out tr'))"
  shows "set (tr @ [Exec argv]) \<subseteq> set (fst (check_output w argv tr k))"
proof (cases "stdout_of w argv")
  case None
  then show ?thesis by (simp add: check_output_def)
next
  case (Some out)
  with assms [of "tr @ [Exec argv]" out] show ?thesis by (simp add: check_output_def)
qed

lemma leave_docs_branch_grows: "set tr \<subseteq> set (fst (leave_docs_branch w cb gh tr))"
  unfolding leave_docs_branch_def by (intro check_call_grows) simp

lemma build_docs_grows: "set tr \<subseteq> set (fst (build_docs w a cb gh rt tr))"
proof -
  have tail: "set tr' \<subseteq> set (fst (case verify w p i tr' of
        (ok, tr) \<Rightarrow>
          if ok then
            check_call w c1 tr (\<lambda>tr. check_call w c2 tr (\<lambda>tr. leave_docs_branch w cb gh tr))
          else leave_docs_branch w cb gh tr))" for tr' p i c1 c2
  proof (cases "i \<and> \<not> confirm w p")
    case True
    with leave_docs_branch_grows [of "tr' @ [Confirm p]" w cb gh] show ?thesis
      by (simp add: verify_def)
  next
    case False
    have "set t \<subseteq> set (fst (check_call w c1 t
        (\<lambda>tr. check_call w c2 tr (\<lambda>tr. leave_docs_branch w cb gh tr))))" for t
      by (intro check_call_grows leave_docs_branch_grows)
    from this [of tr'] this [of "tr' @ [Confirm p]"] False show ?thesis
      by (auto simp: verify_def)
  qed
  show ?thesis
    unfolding build_docs_def by (intro check_call_grows tail)
qed

lemma docs_gate_grows: "set tr \<subseteq> set (fst (docs_gate w a cb gh rt tr))"
  using build_docs_grows [of tr w a cb gh rt]
    build_docs_grows [of "tr @ [Confirm docs_prompt]" w a cb gh rt]
  by (auto simp: docs_gate_def verify_def)

lemma push_release_grows: "set tr \<subseteq> set (fst (push_release w a cb gh rt tr))"
proof -
  have "set t \<subseteq> set (fst (check_call w c1 t
        (\<lambda>tr. check_call w c2 tr (\<lambda>tr. docs_gate w a cb gh rt tr))))" for t c1 c2
    by (intro check_call_grows docs_gate_grows)
  from this [of tr] this [of "tr @ [Confirm (push_prompt (git_remote a))]"]
    docs_gate_grows [of tr w a cb gh rt]
    docs_gate_grows [of "tr @ [Confirm (push_prompt (git_remote a))]" w a cb gh rt]
  show ?thesis
    by (auto simp: push_release_def verify_def)
qed

lemma publish_each_grows:
  assumes "\<And>tr'. set tr' \<subseteq> set (fst (k tr'))"
  shows "set tr \<subseteq> set (fst (publish_each w target versions tr k))"
proof (induction versions arbitrary: tr)
  case Nil
  from assms show ?case by simp
next
  case (Cons v vs)
  show ?case
    unfolding publish_each.simps by (intro check_call_grows Cons.IH)
qed

lemma make_release_grows: "set tr \<subseteq> set (fst (make_release w a nv cb wb gh rt tr))"
proof -
  have tail: "set tr' \<subseteq> set (fst (case map_of PUBLISH_MODES (publish_to a) of
        None \<Rightarrow> (tr', KeyError)
      | Some publish_target \<Rightarrow>
          publish_each w publish_target (spark_version a) tr' (\<lambda>tr.
          check_call w [''git'', ''checkout'', cb] tr (\<lambda>tr.
          check_call w [''git'', ''merge'', ''--ff'', wb] tr (\<lambda>tr.
          check_call w [''git'', ''branch'', ''-d'', wb] tr (\<lambda>tr.
          push_release w a cb gh rt tr))))))" for tr'
  proof (cases "map_of PUBLISH_MODES (publish_to a)")
    case None
    then show ?thesis by simp
  next
    case (Some t)
    show ?thesis
      unfolding Some option.case
      by (intro publish_each_grows check_call_grows push_release_grows)
  qed
  show ?thesis
    unfolding make_release_def by (intro check_call_grows tail)
qed

lemma check_tags_grows: "set (tr @ [Exec tag_cmd]) \<subseteq> set (fst (check_tags w a nv cb tr))"
proof -
  have "set tr' \<subseteq> set (fst (case decode out of
        None \<Rightarrow> (tr', UnicodeDecodeError)
      | Some text \<Rightarrow>
          if c text then (tr', Exit 1) else make_release w a nv cb wb gh rt tr'))"
    for tr' out c wb gh rt
    using make_release_grows [of tr' w a nv cb wb gh rt] by (simp split: option.splits)
  then show ?thesis
    unfolding check_tags_def Let_def by (intro check_output_grows)
qed

lemma check_clean_grows: "set (tr @ [Exec diff_cmd]) \<subseteq> set (fst (check_clean w a nv cb tr))"
proof -
  have "set tr' \<subseteq> set (fst (if c then (tr', Exit 1) else check_tags w a nv cb tr'))"
    for tr' c
    using check_tags_grows [of tr' w a nv cb] by simp
  then show ?thesis
    unfolding check_clean_def by (intro check_output_grows)
qed

lemma check_branch_grows:
  "set (tr @ [Exec rev_parse_cmd]) \<subseteq> set (fst (check_branch w a nv tr))"
proof -
  have "set tr' \<subseteq> set (fst (let current_branch = strip out
        in if current_branch = ''HEAD'' then (tr', Exit 1)
           else if current_branch \<noteq> ''master'' then
             (case verify w not_master_prompt (\<not> no_prompt a) tr' of
                (ok, tr) \<Rightarrow>
                  if \<not> ok then (tr, Exit 1)
                  else check_clean w a nv current_branch tr)
           else check_clean w a nv current_branch tr'))" for tr' out
    using check_clean_grows [of tr' w a nv "strip out"]
      check_clean_grows [of "tr' @ [Confirm not_master_prompt]" w a nv "strip out"]
    by (auto simp: verify_def Let_def)
  then show ?thesis
    unfolding check_branch_def by (intro check_output_grows)
qed

subsection \<open>From the checks to the end of the run\<close>

lemma main_to_check_branch:
  assumes "\<not> unknown_target a"
    and "\<not> declined w a (release_prompt (release_version a)
                 (normalize_next_version (next_version a)))"
  shows "main w a = check_branch w a (normalize_next_version (next_version a))
                      (confirmed_release a)"
  using assms
  by (auto simp: main_def unknown_target_def declined_def verify_def confirmed_release_def
      Let_def)

lemma publish_each_done:
  assumes "exit_status (snd (publish_each w target versions tr k)) = 0"
  shows "\<exists>tr'. publish_each w target versions tr k = k tr'"
  using assms
proof (induction versions arbitrary: tr)
  case Nil
  then show ?case by auto
next
  case (Cons v vs)
  let ?argv = "[''./build/sbt'', ''-Dspark.version='' @ v, ''clean'', target]"
  from Cons.prems
  have step: "publish_each w target (v # vs) tr k =
                publish_each w target vs (tr @ [Exec ?argv]) k"
    by (simp add: check_call_def split: if_splits)
  with Cons.prems Cons.IH [of "tr @ [Exec ?argv]"] show ?case by auto
qed

lemma publish_each_ok:
  assumes "\<forall>tr argv. call_ok w tr argv"
  shows "\<exists>tr'. publish_each w target versions tr k = k tr'"
proof (induction versions arbitrary: tr)
  case Nil
  then show ?case by auto
next
  case (Cons v vs)
  from Cons.IH assms show ?case by (simp add: check_call_def)
qed

lemma make_release_done:
  assumes "exit_status (snd (make_release w a nv cb wb gh rt tr)) = 0"
  shows "\<exists>tr'. make_release w a nv cb wb gh rt tr = push_release w a cb gh rt tr'"
proof -
  let ?k = "\<lambda>tr. check_call w [''git'', ''checkout'', cb] tr (\<lambda>tr.
          check_call w [''git'', ''merge'', ''--ff'', wb] tr (\<lambda>tr.
          check_call w [''git'', ''branch'', ''-d'', wb] tr (\<lambda>tr.
          push_release w a cb gh rt tr)))"
  from assms obtain target t3 where
    eq: "make_release w a nv cb wb gh rt tr = publish_each w target (spark_version a) t3 ?k"
    by (auto simp: make_release_def check_call_def split: if_splits option.splits)
  with assms publish_each_done [of w target "spark_version a" t3 ?k]
  obtain tr' where eq': "publish_each w target (spark_version a) t3 ?k = ?k tr'"
    by auto
  from assms eq eq' have "exit_status (snd (?k tr')) = 0" by simp
  then have "\<exists>t4. ?k tr' = push_release w a cb gh rt t4"
    by (auto simp: check_call_def split: if_splits)
  with eq eq' show ?thesis by simp
qed

lemma make_release_ok:
  assumes "\<forall>tr argv. call_ok w tr argv" and "\<not> unknown_target a"
  shows "\<exists>tr'. make_release w a nv cb wb gh rt tr = push_release w a cb gh rt tr'"
proof -
  let ?k = "\<lambda>tr. check_call w [''git'', ''checkout'', cb] tr (\<lambda>tr.
          check_call w [''git'', ''merge'', ''--ff'', wb] tr (\<lambda>tr.
          check_call w [''git'', ''branch'', ''-d'', wb] tr (\<lambda>tr.
          push_release w a cb gh rt tr)))"
  from assms(2) obtain target where "map_of PUBLISH_MODES (publish_to a) = Some target"
    by (auto simp: unknown_target_def PUBLISH_MODES_def)
  with assms(1) obtain t3 where
    eq: "make_release w a nv cb wb gh rt tr = publish_each w target (spark_version a) t3 ?k"
    by (simp add: make_release_def check_call_def)
  from publish_each_ok [OF assms(1), of target "spark_version a" t3 ?k]
  obtain tr' where eq': "publish_each w target (spark_version a) t3 ?k = ?k tr'"
    by auto
  from assms(1) have "\<exists>t4. ?k tr' = push_release w a cb gh rt t4"
    by (auto simp: check_call_def)
  with eq eq' show ?thesis by simp
qed

lemma push_release_quiet:
  assumes "no_prompt a" and "exit_status (snd (push_release w a cb gh rt tr)) = 0"
  shows "{Exec [''git'', ''push'', git_remote a, cb], Exec [''git'', ''push'', git_remote a, rt]}
           \<subseteq> set (fst (push_release w a cb gh rt tr))"
proof -
  let ?t = "tr @ [Exec [''git'', ''push'', git_remote a, cb],
                  Exec [''git'', ''push'', git_remote a, rt]]"
  from assms have "push_release w a cb gh rt tr = docs_gate w a cb gh rt ?t"
    by (simp add: push_release_def verify_def check_call_def split: if_splits)
  with docs_gate_grows [of ?t w a cb gh rt] show ?thesis by simp
qed

lemma push_release_ok:
  assumes "\<forall>tr argv. call_ok w tr argv"
  shows "\<exists>tr'. push_release w a cb gh rt tr = docs_gate w a cb gh rt tr'"
  using assms by (auto simp: push_release_def verify_def check_call_def)

lemma docs_gate_ok:
  assumes "\<forall>tr argv. call_ok w tr argv"
  shows "snd (docs_gate w a cb gh rt tr) =
           (if publish_docs a \<and> \<not> declined w a docs_prompt then Returned else Exit 0)"
  using assms
  by (simp add: docs_gate_def build_docs_def leave_docs_branch_def verify_def check_call_def
      declined_def)

lemma main_all_ok:
  assumes "\<not> checks_fail w a" and "\<forall>tr argv. call_ok w tr argv"
  shows "snd (main w a) =
           (if publish_docs a \<and> \<not> declined w a docs_prompt then Returned else Exit 0)"
proof -
  from assms(1) obtain out where out: "stdout_of w rev_parse_cmd = Some out"
    by (auto simp: checks_fail_def query_fails_def)
  from assms(1) have target: "\<not> unknown_target a"
    by (simp add: checks_fail_def)
  let ?rt = "RELEASE_TAG (release_version a)"
  let ?gh = "WORKING_DOCS_BRANCH (release_version a) (time_now w)"
  from main_checks_pass [OF assms(1) out]
    make_release_ok [OF assms(2) target, of _ "strip out" _ ?gh ?rt "checks_trace w a"]
  obtain t1 where "main w a = push_release w a (strip out) ?gh ?rt t1"
    by auto
  with push_release_ok [OF assms(2), of a "strip out" ?gh ?rt t1]
  obtain t2 where "main w a = docs_gate w a (strip out) ?gh ?rt t2"
    by auto
  with docs_gate_ok [OF assms(2), of a "strip out" ?gh ?rt t2] show ?thesis
    by simp
qed

subsection \<open>The list of tags, beyond ASCII\<close>

text \<open>
  For the release \<open>1.2.3\<close>, \<open>U+00A0\<close>, \<open>rc\<close> the tag of the same spelling in the output
  of \<open>git tag\<close> is read as the two tags \<open>v1.2.3\<close> and \<open>rc\<close>: the script sees no
  conflict, creates the working branch and runs to its end.
\<close>

lemma tag_cut_at_no_break_space:
  "existing_tags_of (example_world ''master'' []
       (''v1.2.3'' @ [CHR 0xC2, CHR 0xA0] @ ''rc'' @ [CHR 0x0A]) (\<lambda>p. True))
     = Some [''v1.2.3'', ''rc''] \<and>
   \<not> tag_exists (example_world ''master'' []
       (''v1.2.3'' @ [CHR 0xC2, CHR 0xA0] @ ''rc'' @ [CHR 0x0A]) (\<lambda>p. True))
     ((example_args True)\<lparr>release_version := ''1.2.3'' @ [CHR 0xC2, CHR 0xA0] @ ''rc''\<rparr>) \<and>
   snd (main (example_world ''master'' []
       (''v1.2.3'' @ [CHR 0xC2, CHR 0xA0] @ ''rc'' @ [CHR 0x0A]) (\<lambda>p. True))
     ((example_args True)\<lparr>release_version := ''1.2.3'' @ [CHR 0xC2, CHR 0xA0] @ ''rc''\<rparr>))
     = Returned \<and>
   filter creates_branch (commands (fst (main (example_world ''master'' []
       (''v1.2.3'' @ [CHR 0xC2, CHR 0xA0] @ ''rc'' @ [CHR 0x0A]) (\<lambda>p. True))
     ((example_args True)\<lparr>release_version := ''1.2.3'' @ [CHR 0xC2, CHR 0xA0] @ ''rc''\<rparr>))))
     \<noteq> []"
  by code_simp

text \<open>
  When the output of \<open>git tag\<close> is not UTF-8, \<open>decode\<close> raises right after the query and
  the process ends with status 1.
\<close>

lemma tags_not_utf8:
  "main (example_world ''master'' [] (''v1.0'' @ [CHR 0xFF, CHR 0x0A]) (\<lambda>p. True))
     (example_args True)
     = ([Exec rev_parse_cmd, Exec diff_cmd, Exec tag_cmd], UnicodeDecodeError) \<and>
   checks_fail (example_world ''master'' [] (''v1.0'' @ [CHR 0xFF, CHR 0x0A]) (\<lambda>p. True))
     (example_args True)"
  by code_simp

subsection \<open>The next version\<close>

text \<open>
  Claim C10. The normalization of the next version is idempotent: normalizing an already
  normalized string returns it unchanged, so normalizing twice is normalizing once.
\<close>

theorem normalize_idempotent:
  "normalize_next_version (normalize_next_version s) = normalize_next_version s"
  by (simp add: normalize_next_version_def endswith_appended)

text \<open>
  Claim C2, as amended. The script looks for the suffix \<open>SNAPSHOT\<close> and appends
  \<open>-SNAPSHOT\<close>: an input that does not end in \<open>SNAPSHOT\<close> becomes the input followed by
  \<open>-SNAPSHOT\<close>, once; an input that ends in \<open>SNAPSHOT\<close>, with or without a hyphen before
  it, is left unchanged.
\<close>

theorem normalize_by_suffix:
  "((\<nexists>p. s = p @ ''SNAPSHOT'') \<longrightarrow> normalize_next_version s = s @ ''-SNAPSHOT'') \<and>
   ((\<exists>p. s = p @ ''SNAPSHOT'') \<longrightarrow> normalize_next_version s = s)"
  unfolding endswith_iff [symmetric]
  by (simp add: normalize_next_version_def)

text \<open>The two cases at \<open>1.3.0\<close> and \<open>1.3.0-SNAPSHOT\<close>.\<close>

theorem normalize_by_suffix_witness:
  "(\<nexists>p. ''1.3.0'' = p @ ''SNAPSHOT'') \<and>
   normalize_next_version ''1.3.0'' = ''1.3.0-SNAPSHOT'' \<and>
   (\<exists>p. ''1.3.0-SNAPSHOT'' = p @ ''SNAPSHOT'') \<and>
   normalize_next_version ''1.3.0-SNAPSHOT'' = ''1.3.0-SNAPSHOT''"
proof -
  have h1: "\<nexists>p. ''1.3.0'' = p @ ''SNAPSHOT''"
    unfolding endswith_iff [symmetric] by (simp add: endswith_def)
  have h2: "\<exists>p. ''1.3.0-SNAPSHOT'' = p @ ''SNAPSHOT''"
    unfolding endswith_iff [symmetric] by (simp add: endswith_def)
  from h1 h2 normalize_by_suffix [of "''1.3.0''"] normalize_by_suffix [of "''1.3.0-SNAPSHOT''"]
  show ?thesis by simp
qed

text \<open>
  Claim C2 as stated speaks of one marker that is looked for and appended. With the
  marker \<open>-SNAPSHOT\<close> the input \<open>1.0SNAPSHOT\<close> does not end in the marker, yet the script
  leaves it unchanged; with the marker \<open>SNAPSHOT\<close> the input \<open>1.0\<close> gets \<open>-SNAPSHOT\<close>, not
  the marker.
\<close>

theorem normalize_marker_counterexample:
  "\<not> endswith ''1.0SNAPSHOT'' ''-SNAPSHOT'' \<and>
   normalize_next_version ''1.0SNAPSHOT'' \<noteq> ''1.0SNAPSHOT'' @ ''-SNAPSHOT'' \<and>
   normalize_next_version ''1.0SNAPSHOT'' \<noteq> spec_normalize ''-SNAPSHOT'' ''1.0SNAPSHOT'' \<and>
   normalize_next_version ''1.0'' \<noteq> spec_normalize ''SNAPSHOT'' ''1.0''"
  by (simp add: normalize_next_version_def spec_normalize_def endswith_def)

subsection \<open>The names of a run\<close>

text \<open>
  Claim C3. Two runs for the same release identifier whose start timestamps (line 47)
  differ derive different working-branch names and different docs-branch names.
\<close>

theorem branch_names_differ:
  assumes "release_version a1 = release_version a2" and "time_now w1 \<noteq> time_now w2"
  shows "WORKING_BRANCH (release_version a1) (time_now w1) \<noteq>
           WORKING_BRANCH (release_version a2) (time_now w2) \<and>
         WORKING_DOCS_BRANCH (release_version a1) (time_now w1) \<noteq>
           WORKING_DOCS_BRANCH (release_version a2) (time_now w2)"
  using assms by (simp add: WORKING_BRANCH_def WORKING_DOCS_BRANCH_def)

text \<open>Two runs for release \<open>1.2.3\<close>, one second apart.\<close>

theorem branch_names_differ_witness:
  "release_version (example_args True) = release_version (example_args False) \<and>
   time_now (clean_world ''master'') \<noteq>
     time_now ((clean_world ''master'')\<lparr>time_now := ''2023-04-01T12-00-01''\<rparr>) \<and>
   WORKING_BRANCH ''1.2.3'' ''2023-04-01T12-00-00'' \<noteq>
     WORKING_BRANCH ''1.2.3'' ''2023-04-01T12-00-01'' \<and>
   WORKING_DOCS_BRANCH ''1.2.3'' ''2023-04-01T12-00-00'' \<noteq>
     WORKING_DOCS_BRANCH ''1.2.3'' ''2023-04-01T12-00-01''"
  using branch_names_differ [of "example_args True" "example_args False"
      "clean_world ''master''" "(clean_world ''master'')\<lparr>time_now := ''2023-04-01T12-00-01''\<rparr>"]
  by (simp add: example_args_def clean_world_def example_world_def)

subsection \<open>Early exits\<close>

text \<open>
  Claim C4. When the publish target is not a key of \<open>PUBLISH_MODES\<close>, the process exits
  with status 1 and no command at all has been started: the run has no event.
\<close>

theorem unknown_target_exits:
  assumes "publish_to a \<notin> set (map fst PUBLISH_MODES)"
  shows "main w a = ([], Exit 1)"
  using assms by (simp add: main_def)

text \<open>The target \<open>maven\<close> is not one of the three modes.\<close>

theorem unknown_target_exits_witness:
  "publish_to ((example_args True)\<lparr>publish_to := ''maven''\<rparr>) \<notin> set (map fst PUBLISH_MODES) \<and>
   main (clean_world ''master'') ((example_args True)\<lparr>publish_to := ''maven''\<rparr>) = ([], Exit 1)"
proof -
  have h: "publish_to ((example_args True)\<lparr>publish_to := ''maven''\<rparr>)
             \<notin> set (map fst PUBLISH_MODES)"
    by (simp add: PUBLISH_MODES_def)
  from h unknown_target_exits [OF h] show ?thesis by simp
qed

text \<open>
  Claim C5. When \<open>git diff --stat\<close> prints anything, the process exits with status 1 and
  no branch is created: no \<open>git checkout -b\<close> is among the commands of the run, which are
  read-only queries.
\<close>

theorem dirty_tree_exits:
  assumes "stdout_of w diff_cmd = Some changes" and "changes \<noteq> []"
  shows "exit_status (snd (main w a)) = 1 \<and>
         filter creates_branch (commands (fst (main w a))) = [] \<and>
         set (commands (fst (main w a))) \<subseteq> queries"
proof -
  from assms have "checks_fail w a"
    by (simp add: checks_fail_def uncommitted_def)
  then have "exit_status (snd (main w a)) = 1 \<and> set (commands (fst (main w a))) \<subseteq> queries"
    by (rule main_checks_fail)
  then show ?thesis by (simp add: queries_create_nothing)
qed

text \<open>A run on master with one changed file.\<close>

theorem dirty_tree_exits_witness:
  "stdout_of (example_world ''master'' '' README.md | 2 +-'' [] (\<lambda>p. True)) diff_cmd
     = Some '' README.md | 2 +-'' \<and>
   '' README.md | 2 +-'' \<noteq> [] \<and>
   main (example_world ''master'' '' README.md | 2 +-'' [] (\<lambda>p. True)) (example_args True)
     = ([Exec rev_parse_cmd, Exec diff_cmd], Exit 1) \<and>
   exit_status (snd (main (example_world ''master'' '' README.md | 2 +-'' [] (\<lambda>p. True))
     (example_args True))) = 1 \<and>
   filter creates_branch (commands (fst (main
     (example_world ''master'' '' README.md | 2 +-'' [] (\<lambda>p. True)) (example_args True)))) = []"
proof -
  let ?w = "example_world ''master'' '' README.md | 2 +-'' [] (\<lambda>p. True)"
  have h1: "stdout_of ?w diff_cmd = Some '' README.md | 2 +-''"
    by (simp add: example_world_def diff_cmd_def rev_parse_cmd_def)
  have h2: "'' README.md | 2 +-'' \<noteq> []" by simp
  have run: "main ?w (example_args True) = ([Exec rev_parse_cmd, Exec diff_cmd], Exit 1)"
    by code_simp
  from h1 h2 run dirty_tree_exits [OF h1 h2, of "example_args True"] show ?thesis
    by simp
qed



subsection \<open>The current branch\<close>

text \<open>
  Claim C7. A run that gets past the publish target and the release confirmation queries
  the current branch. In a detached state (\<open>git rev-parse\<close> prints \<open>HEAD\<close>) it exits
  with status 1 right after the query. On a named branch other than master it asks
  whether to continue: when the user declines it exits with status 1 right after the
  prompt, and when the user accepts it goes on with the check for uncommitted changes.
\<close>

theorem branch_check_exits:
  assumes "\<not> unknown_target a"
    and "\<not> declined w a (release_prompt (release_version a)
                 (normalize_next_version (next_version a)))"
  shows "Exec rev_parse_cmd \<in> set (fst (main w a)) \<and>
    (current_branch_of w = Some ''HEAD'' \<longrightarrow>
       main w a = (confirmed_release a @ [Exec rev_parse_cmd], Exit 1)) \<and>
    (off_master w \<and> \<not> detached_head w \<and> declined w a not_master_prompt \<longrightarrow>
       main w a = (confirmed_release a @ [Exec rev_parse_cmd, Confirm not_master_prompt],
                   Exit 1)) \<and>
    (off_master w \<and> \<not> detached_head w \<and> \<not> no_prompt a \<and> confirm w not_master_prompt \<longrightarrow>
       (\<exists>branch. current_branch_of w = Some branch \<and>
          main w a = check_clean w a (normalize_next_version (next_version a)) branch
            (confirmed_release a @ [Exec rev_parse_cmd, Confirm not_master_prompt])))"
proof -
  let ?nv = "normalize_next_version (next_version a)"
  from assms have eq: "main w a = check_branch w a ?nv (confirmed_release a)"
    by (rule main_to_check_branch)
  from check_branch_grows [of "confirmed_release a" w a ?nv] eq
  have "Exec rev_parse_cmd \<in> set (fst (main w a))" by simp
  moreover have "current_branch_of w = Some ''HEAD'' \<longrightarrow>
       main w a = (confirmed_release a @ [Exec rev_parse_cmd], Exit 1)"
    unfolding eq
    by (auto simp: check_branch_def check_output_def current_branch_of_def Let_def)
  moreover have "off_master w \<and> \<not> detached_head w \<and> declined w a not_master_prompt \<longrightarrow>
       main w a = (confirmed_release a @ [Exec rev_parse_cmd, Confirm not_master_prompt],
                   Exit 1)"
    unfolding eq
    by (auto simp: check_branch_def check_output_def current_branch_of_def Let_def
        off_master_def detached_head_def declined_def verify_def split: option.splits)
  moreover have "off_master w \<and> \<not> detached_head w \<and> \<not> no_prompt a \<and>
       confirm w not_master_prompt \<longrightarrow>
       (\<exists>branch. current_branch_of w = Some branch \<and>
          main w a = check_clean w a ?nv branch
            (confirmed_release a @ [Exec rev_parse_cmd, Confirm not_master_prompt]))"
    unfolding eq
    by (auto simp: check_branch_def check_output_def current_branch_of_def Let_def
        off_master_def detached_head_def verify_def split: option.splits)
  ultimately show ?thesis by blast
qed

text \<open>An interactive run in a detached state, and one on \<open>feature\<close> whose user declines.\<close>

theorem branch_check_exits_witness:
  "\<not> unknown_target (example_args False) \<and>
   \<not> declined (clean_world ''HEAD'') (example_args False)
       (release_prompt (release_version (example_args False))
          (normalize_next_version (next_version (example_args False)))) \<and>
   current_branch_of (clean_world ''HEAD'') = Some ''HEAD'' \<and>
   main (clean_world ''HEAD'') (example_args False)
     = ([Confirm (release_prompt ''1.2.3'' ''1.3.0-SNAPSHOT''), Exec rev_parse_cmd], Exit 1) \<and>
   \<not> declined (example_world ''feature'' [] [] (\<lambda>p. p \<noteq> not_master_prompt))
       (example_args False)
       (release_prompt (release_version (example_args False))
          (normalize_next_version (next_version (example_args False)))) \<and>
   off_master (example_world ''feature'' [] [] (\<lambda>p. p \<noteq> not_master_prompt)) \<and>
   \<not> detached_head (example_world ''feature'' [] [] (\<lambda>p. p \<noteq> not_master_prompt)) \<and>
   declined (example_world ''feature'' [] [] (\<lambda>p. p \<noteq> not_master_prompt))
       (example_args False) not_master_prompt \<and>
   main (example_world ''feature'' [] [] (\<lambda>p. p \<noteq> not_master_prompt)) (example_args False)
     = ([Confirm (release_prompt ''1.2.3'' ''1.3.0-SNAPSHOT''), Exec rev_parse_cmd,
         Confirm not_master_prompt], Exit 1)"
proof -
  let ?a = "example_args False"
  let ?w1 = "clean_world ''HEAD''"
  let ?w2 = "example_world ''feature'' [] [] (\<lambda>p. p \<noteq> not_master_prompt)"
  let ?p = "release_prompt (release_version ?a) (normalize_next_version (next_version ?a))"
  have a1: "\<not> unknown_target ?a" by code_simp
  have a2: "\<not> declined ?w1 ?a ?p" by code_simp
  have a3: "\<not> declined ?w2 ?a ?p" by code_simp
  have b1: "current_branch_of ?w1 = Some ''HEAD''" by code_simp
  have b2: "off_master ?w2" by code_simp
  have b3: "\<not> detached_head ?w2" by code_simp
  have b4: "declined ?w2 ?a not_master_prompt" by code_simp
  have c: "confirmed_release ?a = [Confirm (release_prompt ''1.2.3'' ''1.3.0-SNAPSHOT'')]"
    by code_simp
  from branch_check_exits [OF a1 a2] branch_check_exits [OF a1 a3] a1 a2 a3 b1 b2 b3 b4 c
  show ?thesis by simp
qed

subsection \<open>Runs without prompts\<close>

text \<open>
  Claim C9. Without interaction \<open>verify\<close> returns \<open>True\<close> for every prompt and shows
  nothing. In particular a run with \<open>no_prompt\<close> on a named branch other than master
  goes from the branch query straight on to the check for uncommitted changes: it is not
  aborted and \<open>git diff --stat\<close> is started.
\<close>

theorem no_prompt_confirms:
  "verify w prompt False tr = (True, tr) \<and>
   (no_prompt a \<and> \<not> unknown_target a \<and> off_master w \<and> \<not> detached_head w \<longrightarrow>
      (\<exists>branch. current_branch_of w = Some branch \<and>
         main w a = check_clean w a (normalize_next_version (next_version a)) branch
                      [Exec rev_parse_cmd]) \<and>
      Exec diff_cmd \<in> set (fst (main w a)))"
proof -
  let ?nv = "normalize_next_version (next_version a)"
  have first: "verify w prompt False tr = (True, tr)"
    by (simp add: verify_def)
  have second: "(\<exists>branch. current_branch_of w = Some branch \<and>
         main w a = check_clean w a ?nv branch [Exec rev_parse_cmd]) \<and>
      Exec diff_cmd \<in> set (fst (main w a))"
    if h: "no_prompt a" "\<not> unknown_target a" "off_master w" "\<not> detached_head w"
  proof -
    from h obtain branch where b: "current_branch_of w = Some branch"
      and eq: "main w a = check_clean w a ?nv branch [Exec rev_parse_cmd]"
      by (auto simp: main_def unknown_target_def verify_def Let_def check_branch_def
          check_output_def current_branch_of_def off_master_def detached_head_def
          split: option.splits)
    from check_clean_grows [of "[Exec rev_parse_cmd]" w a ?nv branch] eq
    have "Exec diff_cmd \<in> set (fst (main w a))" by simp
    with b eq show ?thesis by blast
  qed
  from first second show ?thesis by blast
qed

text \<open>A run with \<open>no_prompt\<close> on the branch \<open>feature\<close>; it ends with status 0.\<close>

theorem no_prompt_confirms_witness:
  "no_prompt (example_args True) \<and> \<not> unknown_target (example_args True) \<and>
   off_master (clean_world ''feature'') \<and> \<not> detached_head (clean_world ''feature'') \<and>
   verify (clean_world ''feature'') not_master_prompt False [Exec rev_parse_cmd]
     = (True, [Exec rev_parse_cmd]) \<and>
   current_branch_of (clean_world ''feature'') = Some ''feature'' \<and>
   main (clean_world ''feature'') (example_args True)
     = check_clean (clean_world ''feature'') (example_args True) ''1.3.0-SNAPSHOT'' ''feature''
         [Exec rev_parse_cmd] \<and>
   Exec diff_cmd \<in> set (fst (main (clean_world ''feature'') (example_args True))) \<and>
   exit_status (snd (main (clean_world ''feature'') (example_args True))) = 0"
proof -
  let ?a = "example_args True"
  let ?w = "clean_world ''feature''"
  have h1: "no_prompt ?a" by code_simp
  have h2: "\<not> unknown_target ?a" by code_simp
  have h3: "off_master ?w" by code_simp
  have h4: "\<not> detached_head ?w" by code_simp
  have b: "current_branch_of ?w = Some ''feature''" by code_simp
  have n: "normalize_next_version (next_version ?a) = ''1.3.0-SNAPSHOT''" by code_simp
  have s: "exit_status (snd (main ?w ?a)) = 0" by code_simp
  from no_prompt_confirms [of ?w not_master_prompt "[Exec rev_parse_cmd]" ?a]
    h1 h2 h3 h4 b n s
  show ?thesis by auto
qed

text \<open>
  Claim C1, as amended. With \<open>no_prompt\<close> the confirmation in front of the push is
  answered with yes, not skipped: every run with \<open>no_prompt\<close> that ends with status 0
  has executed \<open>git push\<close> of the current branch and of the release tag to the remote.
\<close>

theorem no_prompt_pushes:
  assumes "no_prompt a" and "exit_status (snd (main w a)) = 0"
  shows "\<exists>branch. current_branch_of w = Some branch \<and>
           [''git'', ''push'', git_remote a, branch] \<in> set (commands (fst (main w a))) \<and>
           [''git'', ''push'', git_remote a, RELEASE_TAG (release_version a)]
             \<in> set (commands (fst (main w a)))"
proof -
  from assms(2) main_checks_fail [of w a] have pass: "\<not> checks_fail w a" by auto
  then obtain out where out: "stdout_of w rev_parse_cmd = Some out"
    by (auto simp: checks_fail_def query_fails_def)
  let ?rt = "RELEASE_TAG (release_version a)"
  let ?gh = "WORKING_DOCS_BRANCH (release_version a) (time_now w)"
  from main_checks_pass [OF pass out] assms(2)
    make_release_done [of w a _ "strip out" _ ?gh ?rt "checks_trace w a"]
  obtain tr' where "main w a = push_release w a (strip out) ?gh ?rt tr'"
    by auto
  with assms push_release_quiet [of a w "strip out" ?gh ?rt tr']
  have "Exec [''git'', ''push'', git_remote a, strip out] \<in> set (fst (main w a))"
    and "Exec [''git'', ''push'', git_remote a, ?rt] \<in> set (fst (main w a))"
    by auto
  with out show ?thesis
    by (simp add: set_commands current_branch_of_def)
qed

text \<open>The run of release \<open>1.2.3\<close> on a clean master with \<open>no_prompt\<close>.\<close>

theorem no_prompt_pushes_witness:
  "no_prompt (example_args True) \<and>
   exit_status (snd (main (clean_world ''master'') (example_args True))) = 0 \<and>
   [''git'', ''push'', DATABRICKS_REMOTE, ''master'']
     \<in> set (commands (fst (main (clean_world ''master'') (example_args True)))) \<and>
   [''git'', ''push'', DATABRICKS_REMOTE, ''v1.2.3'']
     \<in> set (commands (fst (main (clean_world ''master'') (example_args True))))"
proof -
  have h1: "no_prompt (example_args True)" by (simp add: example_args_def)
  have h2: "exit_status (snd (main (clean_world ''master'') (example_args True))) = 0"
    by code_simp
  have b: "current_branch_of (clean_world ''master'') = Some ''master''"
    by code_simp
  from no_prompt_pushes [OF h1 h2] b h1 h2 show ?thesis
    by (auto simp: example_args_def RELEASE_TAG_def)
qed

text \<open>
  Claim C1 as stated says that a run with \<open>no_prompt\<close> never executes a push. The run
  above does: its commands contain a push, namely the push of master and the push of
  the tag \<open>v1.2.3\<close>.
\<close>

theorem no_prompt_push_counterexample:
  "no_prompt (example_args True) \<and>
   filter is_push (commands (fst (main (clean_world ''master'') (example_args True)))) \<noteq> [] \<and>
   [''git'', ''push'', ''git@github.com:graphframes/graphframes.git'', ''master'']
     \<in> set (commands (fst (main (clean_world ''master'') (example_args True)))) \<and>
   [''git'', ''push'', ''git@github.com:graphframes/graphframes.git'', ''v1.2.3'']
     \<in> set (commands (fst (main (clean_world ''master'') (example_args True))))"
  by code_simp

subsection \<open>Exit codes\<close>

text \<open>
  Claim C8. The process exits with status 1 on a validation failure (unknown publish
  target), on a precondition failure (detached head, uncommitted changes, existing
  release tag) and on a declined mandatory confirmation (the release confirmation, or
  the confirmation to continue off master). When no check fails and every command
  succeeds it exits with status 0: through \<open>sys.exit(0)\<close> when the docs are switched off or
  the user declines to build them, and by running to the end otherwise.
\<close>

theorem exit_codes:
  "(unknown_target a \<or> detached_head w \<or> uncommitted w \<or> tag_exists w a \<or>
    declined w a (release_prompt (release_version a)
                    (normalize_next_version (next_version a))) \<or>
    (off_master w \<and> declined w a not_master_prompt)
    \<longrightarrow> exit_status (snd (main w a)) = 1) \<and>
   (\<not> checks_fail w a \<and> (\<forall>tr argv. call_ok w tr argv)
    \<longrightarrow> snd (main w a) =
          (if publish_docs a \<and> \<not> declined w a docs_prompt then Returned else Exit 0) \<and>
        exit_status (snd (main w a)) = 0)"
proof (intro conjI impI)
  assume "unknown_target a \<or> detached_head w \<or> uncommitted w \<or> tag_exists w a \<or>
    declined w a (release_prompt (release_version a)
                    (normalize_next_version (next_version a))) \<or>
    (off_master w \<and> declined w a not_master_prompt)"
  then have "checks_fail w a"
    unfolding checks_fail_def by blast
  then show "exit_status (snd (main w a)) = 1"
    using main_checks_fail by blast
next
  assume h: "\<not> checks_fail w a \<and> (\<forall>tr argv. call_ok w tr argv)"
  then show eq: "snd (main w a) =
          (if publish_docs a \<and> \<not> declined w a docs_prompt then Returned else Exit 0)"
    using main_all_ok by blast
  then show "exit_status (snd (main w a)) = 0"
    by simp
qed

text \<open>
  A declined release confirmation, a complete run without prompts, and an interactive
  run whose user accepts everything but the docs build.
\<close>

theorem exit_codes_witness:
  "declined (example_world ''master'' [] [] (\<lambda>p. False)) (example_args False)
     (release_prompt (release_version (example_args False))
        (normalize_next_version (next_version (example_args False)))) \<and>
   exit_status (snd (main (example_world ''master'' [] [] (\<lambda>p. False)) (example_args False)))
     = 1 \<and>
   \<not> checks_fail (clean_world ''master'') (example_args True) \<and>
   (\<forall>tr argv. call_ok (clean_world ''master'') tr argv) \<and>
   snd (main (clean_world ''master'') (example_args True)) = Returned \<and>
   exit_status (snd (main (clean_world ''master'') (example_args True))) = 0 \<and>
   \<not> checks_fail (example_world ''master'' [] [] (\<lambda>p. p \<noteq> docs_prompt)) (example_args False) \<and>
   (\<forall>tr argv. call_ok (example_world ''master'' [] [] (\<lambda>p. p \<noteq> docs_prompt)) tr argv) \<and>
   declined (example_world ''master'' [] [] (\<lambda>p. p \<noteq> docs_prompt)) (example_args False)
     docs_prompt \<and>
   snd (main (example_world ''master'' [] [] (\<lambda>p. p \<noteq> docs_prompt)) (example_args False))
     = Exit 0 \<and>
   exit_status (snd (main (example_world ''master'' [] [] (\<lambda>p. p \<noteq> docs_prompt))
     (example_args False))) = 0"
proof -
  let ?w1 = "example_world ''master'' [] [] (\<lambda>p. False)"
  let ?w2 = "clean_world ''master''"
  let ?w3 = "example_world ''master'' [] [] (\<lambda>p. p \<noteq> docs_prompt)"
  let ?a = "example_args False"
  let ?q = "example_args True"
  have d1: "declined ?w1 ?a
     (release_prompt (release_version ?a) (normalize_next_version (next_version ?a)))"
    by code_simp
  have p2: "\<not> checks_fail ?w2 ?q" by code_simp
  have o2: "\<forall>tr argv. call_ok ?w2 tr argv"
    by (simp add: clean_world_def example_world_def)
  have p3: "\<not> checks_fail ?w3 ?a" by code_simp
  have o3: "\<forall>tr argv. call_ok ?w3 tr argv"
    by (simp add: example_world_def)
  have d3: "declined ?w3 ?a docs_prompt" by code_simp
  have q2: "publish_docs ?q \<and> \<not> declined ?w2 ?q docs_prompt" by code_simp
  from exit_codes [of ?a ?w1] exit_codes [of ?q ?w2] exit_codes [of ?a ?w3]
    d1 p2 o2 p3 o3 d3 q2
  show ?thesis by simp
qed

end
